theory Spec2Isabelle
  imports Complex_Main "HOL-Library.Word" "HOL-Library.Char_ord" "HOL-Library.List_Lexorder"
begin

section \<open>Image to Base64 converters: a shallow embedding\<close>

text \<open>
  The repository holds two command line scripts.  \<^verbatim>\<open>img_to_base64_converter.py\<close>
  (variant A, the destructive flow) replaces every image by a text file with
  its Base64 encoding and removes the image.
  \<^verbatim>\<open>scripts/img_2_base_64/img_to_base64.py\<close> (variant B, the aggregating
  flow) collects the encodings of a directory tree in one dictionary and
  writes it out as a Dart map literal.

  Bytes are \<open>8 word\<close>, Python \<open>str\<close> values are \<open>string\<close>, Python \<open>int\<close>
  counters are \<open>nat\<close> (they only count up from zero) and the \<open>float\<close> values
  of the progress report are idealised as \<open>real\<close>.  Paths follow the POSIX
  flavour of \<open>os.path\<close> and \<open>pathlib\<close>.
\<close>

type_synonym byte = "8 word"
type_synonym path = string

subsection \<open>Library functions on strings and paths\<close>

text \<open>\<open>str.lower\<close>.  Only the ASCII letters are mapped; the supported
  extensions are ASCII, and no character outside ASCII lowers to one of
  their letters.\<close>

definition lower_char :: "char \<Rightarrow> char" where
  "lower_char c =
     (if CHR ''A'' \<le> c \<and> c \<le> CHR ''Z'' then char_of (of_char c + (32::nat)) else c)"

definition lower :: "string \<Rightarrow> string" where
  "lower s = map lower_char s"

text \<open>\<open>str.split(sep)\<close> for a one character separator: \<open>''a//b''\<close> gives
  three pieces, the empty string gives one empty piece.\<close>

fun split_on :: "char \<Rightarrow> string \<Rightarrow> string list" where
  "split_on c [] = [[]]"
| "split_on c (x # xs) =
     (if x = c then [] # split_on c xs
      else (case split_on c xs of [] \<Rightarrow> [[x]] | h # t \<Rightarrow> (x # h) # t))"

text \<open>\<open>str.rfind(c)\<close>: the index of the last occurrence, \<open>-1\<close> when there is none.\<close>

definition rfind :: "char \<Rightarrow> string \<Rightarrow> int" where
  "rfind c s =
     (if c \<in> set s then int (length s) - 1 - int (length (takeWhile (\<lambda>x. x \<noteq> c) (rev s)))
      else - 1)"

text \<open>The slices \<open>s[:i]\<close> and \<open>s[i:]\<close> for an index \<open>i \<ge> 0\<close>.\<close>

definition slice_to :: "int \<Rightarrow> string \<Rightarrow> string" where
  "slice_to i s = take (nat i) s"

definition slice_from :: "int \<Rightarrow> string \<Rightarrow> string" where
  "slice_from i s = drop (nat i) s"

definition rstrip :: "char \<Rightarrow> string \<Rightarrow> string" where
  "rstrip c s = rev (dropWhile (\<lambda>x. x = c) (rev s))"

definition lstrip :: "char \<Rightarrow> string \<Rightarrow> string" where
  "lstrip c s = dropWhile (\<lambda>x. x = c) s"

definition startswith :: "string \<Rightarrow> string \<Rightarrow> bool" where
  "startswith s p = (take (length p) s = p)"

definition endswith :: "string \<Rightarrow> string \<Rightarrow> bool" where
  "endswith s p = (length p \<le> length s \<and> drop (length s - length p) s = p)"

text \<open>\<open>posixpath.basename\<close>, \<open>dirname\<close> and the two argument \<open>join\<close>.\<close>

definition basename :: "path \<Rightarrow> string" where
  "basename p = slice_from (rfind CHR ''/'' p + 1) p"

definition dirname :: "path \<Rightarrow> path" where
  "dirname p =
     (let head = slice_to (rfind CHR ''/'' p + 1) p
      in if head \<noteq> [] \<and> head \<noteq> replicate (length head) CHR ''/''
         then rstrip CHR ''/'' head else head)"

definition join :: "path \<Rightarrow> path \<Rightarrow> path" where
  "join a b =
     (if startswith b ''/'' then b
      else if a = [] \<or> endswith a ''/'' then a @ b
      else a @ ''/'' @ b)"

text \<open>\<open>genericpath._splitext\<close> with separator \<open>/\<close>: the extension starts at the
  last dot of the last component, unless only dots precede it there.\<close>

definition splitext :: "path \<Rightarrow> path \<times> string" where
  "splitext p =
     (let sepIndex = rfind CHR ''/'' p;
          dotIndex = rfind CHR ''.'' p
      in if dotIndex > sepIndex \<and>
            list_ex (\<lambda>c. c \<noteq> CHR ''.'')
              (take (nat (dotIndex - (sepIndex + 1))) (slice_from (sepIndex + 1) p))
         then (slice_to dotIndex p, slice_from dotIndex p)
         else (p, []))"

text \<open>\<open>pathlib.PurePosixPath(p).suffix\<close>: the parts of a path are its pieces
  between slashes other than the empty piece and \<open>.\<close>; the name is the last
  part; the suffix starts at the last dot of the name when that dot is neither
  its first nor its last character.\<close>

definition path_parts :: "path \<Rightarrow> string list" where
  "path_parts p = filter (\<lambda>x. x \<noteq> [] \<and> x \<noteq> ''.'') (split_on CHR ''/'' p)"

definition path_name :: "path \<Rightarrow> string" where
  "path_name p = (case path_parts p of [] \<Rightarrow> [] | x # xs \<Rightarrow> last (x # xs))"

definition name_suffix :: "string \<Rightarrow> string" where
  "name_suffix name =
     (let i = rfind CHR ''.'' name
      in if 0 < i \<and> i < int (length name) - 1 then slice_from i name else [])"

definition path_suffix :: "path \<Rightarrow> string" where
  "path_suffix p = name_suffix (path_name p)"

text \<open>\<open>posixpath.normpath\<close>, \<open>abspath\<close> (the working directory is an argument)
  and \<open>relpath\<close>, which raises \<open>ValueError\<close> on an empty path.\<close>

fun norm_comps :: "bool \<Rightarrow> string list \<Rightarrow> string list \<Rightarrow> string list" where
  "norm_comps initial_slashes new_comps [] = new_comps"
| "norm_comps initial_slashes new_comps (x # comps) =
     (if x = [] \<or> x = ''.'' then norm_comps initial_slashes new_comps comps
      else if x \<noteq> ''..'' \<or> (\<not> initial_slashes \<and> new_comps = [])
              \<or> (new_comps \<noteq> [] \<and> last new_comps = ''..'')
           then norm_comps initial_slashes (new_comps @ [x]) comps
      else if new_comps \<noteq> [] then norm_comps initial_slashes (butlast new_comps) comps
      else norm_comps initial_slashes new_comps comps)"

fun join_with :: "string \<Rightarrow> string list \<Rightarrow> string" where
  "join_with sep [] = []"
| "join_with sep [x] = x"
| "join_with sep (x # y # ys) = x @ sep @ join_with sep (y # ys)"

definition normpath :: "path \<Rightarrow> path" where
  "normpath p =
     (if p = [] then ''.''
      else
        let initial_slashes =
              (if startswith p ''/'' then
                 (if startswith p ''//'' \<and> \<not> startswith p ''///'' then 2 else 1)
               else (0::nat));
            comps = norm_comps (initial_slashes \<noteq> 0) [] (split_on CHR ''/'' p);
            q = replicate initial_slashes CHR ''/'' @ join_with ''/'' comps
        in if q = [] then ''.'' else q)"

definition abspath :: "path \<Rightarrow> path \<Rightarrow> path" where
  "abspath cwd p = normpath (if startswith p ''/'' then p else join cwd p)"

fun commonprefix :: "'a list \<Rightarrow> 'a list \<Rightarrow> 'a list" where
  "commonprefix (x # xs) (y # ys) = (if x = y then x # commonprefix xs ys else [])"
| "commonprefix _ _ = []"

datatype exn =
    PermissionError
  | FileNotFoundError
  | OSError nat
  | ValueError
  | ZeroDivisionError
  | OtherException

definition relpath :: "path \<Rightarrow> path \<Rightarrow> path \<Rightarrow> exn + path" where
  "relpath cwd p start =
     (if p = [] then Inl ValueError
      else
        let start_tail = lstrip CHR ''/'' (abspath cwd start);
            path_tail = lstrip CHR ''/'' (abspath cwd p);
            start_list = (if start_tail = [] then [] else split_on CHR ''/'' start_tail);
            path_list = (if path_tail = [] then [] else split_on CHR ''/'' path_tail);
            i = length (commonprefix start_list path_list);
            rel_list = replicate (length start_list - i) ''..'' @ drop i path_list
        in if rel_list = [] then Inr ''.''
           else Inr (foldl join (hd rel_list) (tl rel_list)))"

subsection \<open>\<open>base64.b64encode\<close> and a decoder\<close>

text \<open>The standard alphabet of RFC 4648.  Three bytes make a 24 bit group
  that is written as four characters; a last group of one or two bytes is
  padded with \<open>=\<close>.\<close>

definition b64_alphabet :: string where
  "b64_alphabet = ''ABCDEFGHIJKLMNOPQRSTUVWXYZabcdefghijklmnopqrstuvwxyz0123456789+/''"

definition b64_char :: "nat \<Rightarrow> char" where
  "b64_char i = b64_alphabet ! i"

definition b64_quad :: "nat \<Rightarrow> string" where
  "b64_quad n = [b64_char (n div 262144), b64_char (n div 4096 mod 64),
                 b64_char (n div 64 mod 64), b64_char (n mod 64)]"

fun b64encode :: "byte list \<Rightarrow> string" where
  "b64encode [] = []"
| "b64encode [a] = take 2 (b64_quad (unat a * 65536)) @ ''==''"
| "b64encode [a, b] = take 3 (b64_quad (unat a * 65536 + unat b * 256)) @ ''=''"
| "b64encode (a # b # c # rest) =
     b64_quad (unat a * 65536 + unat b * 256 + unat c) @ b64encode rest"

text \<open>The decoder is the reference the round trip is stated against: it reads
  groups of four characters of the alphabet, accepts padding in the last
  group only and rejects everything else.\<close>

fun index_of :: "'a \<Rightarrow> 'a list \<Rightarrow> nat option" where
  "index_of x [] = None"
| "index_of x (y # ys) = (if x = y then Some 0 else map_option Suc (index_of x ys))"

definition b64_index :: "char \<Rightarrow> nat option" where
  "b64_index c = index_of c b64_alphabet"

definition sextets :: "string \<Rightarrow> nat option" where
  "sextets cs = fold (\<lambda>c acc. case (acc, b64_index c) of
                        (Some n, Some i) \<Rightarrow> Some (n * 64 + i) | _ \<Rightarrow> None) cs (Some 0)"

definition bytes3 :: "nat \<Rightarrow> byte list" where
  "bytes3 n = [of_nat (n div 65536), of_nat (n div 256 mod 256), of_nat (n mod 256)]"

definition decode_last :: "char \<Rightarrow> char \<Rightarrow> char \<Rightarrow> char \<Rightarrow> byte list option" where
  "decode_last c1 c2 c3 c4 =
     (if c3 = CHR ''='' \<and> c4 = CHR ''='' then
        map_option (\<lambda>n. take 1 (bytes3 (n * 4096))) (sextets [c1, c2])
      else if c4 = CHR ''='' then
        map_option (\<lambda>n. take 2 (bytes3 (n * 64))) (sextets [c1, c2, c3])
      else map_option bytes3 (sextets [c1, c2, c3, c4]))"

fun b64decode :: "string \<Rightarrow> byte list option" where
  "b64decode [] = Some []"
| "b64decode (c1 # c2 # c3 # c4 # rest) =
     (if rest = [] then decode_last c1 c2 c3 c4
      else case sextets [c1, c2, c3, c4] of
             None \<Rightarrow> None
           | Some n \<Rightarrow> map_option ((@) (bytes3 n)) (b64decode rest))"
| "b64decode _ = None"

subsection \<open>The world outside the program\<close>

text \<open>
  The exceptions of the model are \<^typ>\<open>exn\<close>; all of them are subclasses of
  Python's \<open>Exception\<close>, and the first three are subclasses of \<open>OSError\<close>.
  What the operating system answers is not decided by the program, so it is
  a parameter \<open>env\<close> of every function: which reads, writes, removals and
  directory creations fail and how, the free space of a volume, the content
  tests of \<open>imghdr\<close>, the directory listings, the working directory and the
  clock.  What the program changes is the \<open>world\<close>: the regular files with
  their contents, the sequence of events it has caused (console lines, the
  calls that wrote a file, the calls of \<open>os.remove\<close>) and the number of clock
  readings taken.
\<close>

datatype msg =
    ErrReadPermission path
  | ErrProcess path exn
  | ErrWritePermission path
  | ErrDiskFull path
  | ErrSave path exn
  | ErrRemovePermission path
  | ErrRemove path exn
  | WarnDiskUsage exn
  | Processing path nat nat
  | SkipInvalid path
  | ErrNoSpace path
  | Success path path
  | PartialSuccess path
  | ProgressLine real real real
  | ErrNoDirectory path
  | CreatedOutputDir path
  | ErrCreateOutputDir path exn
  | StartScan path bool
  | NoImagesFound
  | FoundImages nat
  | Finished
  | SuccessCount nat
  | FailedCount nat
  | ProgressPercent real
  | DartGenerated path
  | ErrDart exn
  | WarnNoImages

datatype event =
    Print msg
  | OsWrite path string "exn option"
  | OsRemove path "exn option"

record os_env =
  sniff_error :: "path \<Rightarrow> exn option"
  read_error :: "path \<Rightarrow> exn option"
  write_error :: "path \<Rightarrow> exn option"
  remove_error :: "path \<Rightarrow> exn option"
  makedirs_error :: "path \<Rightarrow> exn option"
  disk_usage :: "(path \<rightharpoonup> byte list) \<Rightarrow> path \<Rightarrow> exn + (nat \<times> nat \<times> nat)"
  imghdr_tests :: "byte list \<Rightarrow> string option"
  os_walk :: "path \<Rightarrow> (path \<times> string list \<times> string list) list"
  os_listdir :: "path \<Rightarrow> exn + string list"
  isdir :: "path \<Rightarrow> bool"
  path_exists :: "path \<Rightarrow> bool"
  getcwd :: path
  clock :: "nat \<Rightarrow> real"

record world =
  files :: "path \<rightharpoonup> byte list"
  events :: "event list"
  ticks :: nat

text \<open>The file operations among the events, without the console lines.\<close>

definition fs_ops :: "event list \<Rightarrow> event list" where
  "fs_ops evs = filter (\<lambda>e. case e of Print m \<Rightarrow> False | _ \<Rightarrow> True) evs"

text \<open>The events of a later world \<open>w'\<close> that an earlier world \<open>w\<close> does not have yet.\<close>

definition new_events :: "world \<Rightarrow> world \<Rightarrow> event list" where
  "new_events w w' = drop (length (events w)) (events w')"

definition print :: "msg \<Rightarrow> world \<Rightarrow> world" where
  "print m w = w\<lparr>events := events w @ [Print m]\<rparr>"

definition time_time :: "os_env \<Rightarrow> world \<Rightarrow> real \<times> world" where
  "time_time env w = (clock env (ticks w), w\<lparr>ticks := ticks w + 1\<rparr>)"

text \<open>\<open>open(p, 'rb').read()\<close>: a missing file raises \<open>FileNotFoundError\<close>, an
  existing one may fail as the environment says.\<close>

definition open_read :: "os_env \<Rightarrow> (path \<rightharpoonup> byte list) \<Rightarrow> path \<Rightarrow> exn + byte list" where
  "open_read env fs p =
     (case fs p of
        None \<Rightarrow> Inl FileNotFoundError
      | Some bs \<Rightarrow> (case read_error env p of Some e \<Rightarrow> Inl e | None \<Rightarrow> Inr bs))"

text \<open>\<open>imghdr.what(p)\<close> opens the file, reads its first 32 bytes and runs
  its content tests on them.  Its read is a read of its own: it may fail where
  the later read of the whole file does not, and the other way round.\<close>

definition imghdr_what :: "os_env \<Rightarrow> (path \<rightharpoonup> byte list) \<Rightarrow> path \<Rightarrow> exn + string option" where
  "imghdr_what env fs p =
     (case fs p of
        None \<Rightarrow> Inl FileNotFoundError
      | Some bs \<Rightarrow> (case sniff_error env p of
                     Some e \<Rightarrow> Inl e
                   | None \<Rightarrow> Inr (imghdr_tests env (take 32 bs))))"

definition getsize :: "(path \<rightharpoonup> byte list) \<Rightarrow> path \<Rightarrow> exn + nat" where
  "getsize fs p = (case fs p of None \<Rightarrow> Inl FileNotFoundError | Some bs \<Rightarrow> Inr (length bs))"

definition isfile :: "(path \<rightharpoonup> byte list) \<Rightarrow> path \<Rightarrow> bool" where
  "isfile fs p = (fs p \<noteq> None)"

text \<open>\<open>os.makedirs(d, exist_ok=True)\<close>; the empty path raises
  \<open>FileNotFoundError\<close>.\<close>

definition os_makedirs :: "os_env \<Rightarrow> path \<Rightarrow> exn option" where
  "os_makedirs env d = (if d = [] then Some FileNotFoundError else makedirs_error env d)"

text \<open>The text of a Base64 string is ASCII, so its UTF-8 encoding is one byte
  per character.\<close>

definition encode_utf8 :: "string \<Rightarrow> byte list" where
  "encode_utf8 s = map of_char s"

definition is_OSError :: "exn \<Rightarrow> bool" where
  "is_OSError e = (case e of PermissionError \<Rightarrow> True | FileNotFoundError \<Rightarrow> True
                     | OSError n \<Rightarrow> True | _ \<Rightarrow> False)"

definition errno :: "exn \<Rightarrow> nat" where
  "errno e = (case e of PermissionError \<Rightarrow> 13 | FileNotFoundError \<Rightarrow> 2
                | OSError n \<Rightarrow> n | _ \<Rightarrow> 0)"

subsection \<open>Variant A: \<^verbatim>\<open>img_to_base64_converter.py\<close>\<close>

definition SUPPORTED_FORMATS :: "string list" where
  "SUPPORTED_FORMATS = [''.jpg'', ''.jpeg'', ''.png'', ''.gif'', ''.bmp'',
                        ''.webp'', ''.tiff'', ''.tif'', ''.ico'']"

text \<open>\<open>is_valid_image\<close>: the extension test stands outside the \<open>try\<close>; the
  handler \<open>except Exception\<close> takes every exception of the model.\<close>

definition is_valid_image :: "os_env \<Rightarrow> (path \<rightharpoonup> byte list) \<Rightarrow> path \<Rightarrow> exn + bool" where
  "is_valid_image env fs file_path =
     (let suffix = lower (path_suffix file_path)
      in if suffix \<notin> set SUPPORTED_FORMATS then Inr False
         else (case imghdr_what env fs file_path of
                 Inr img_type \<Rightarrow> Inr (img_type \<noteq> None)
               | Inl e \<Rightarrow> Inr False))"

definition get_free_space :: "os_env \<Rightarrow> path \<Rightarrow> world \<Rightarrow> nat \<times> world" where
  "get_free_space env directory w =
     (case disk_usage env (files w) directory of
        Inr (tot, used, free) \<Rightarrow> (free, w)
      | Inl e \<Rightarrow> (0, print (WarnDiskUsage e) w))"

text \<open>The console line of each family of handlers: \<open>except PermissionError\<close>
  comes first, then (for a write) \<open>except OSError\<close> with its test of
  \<open>errno == 28\<close>, then \<open>except Exception\<close>.\<close>

definition read_error_msg :: "path \<Rightarrow> exn \<Rightarrow> msg" where
  "read_error_msg file_path e =
     (if e = PermissionError then ErrReadPermission file_path else ErrProcess file_path e)"

definition save_error_msg :: "path \<Rightarrow> exn \<Rightarrow> msg" where
  "save_error_msg output_path e =
     (if e = PermissionError then ErrWritePermission output_path
      else if is_OSError e then
        (if errno e = 28 then ErrDiskFull output_path else ErrSave output_path e)
      else ErrSave output_path e)"

definition remove_error_msg :: "path \<Rightarrow> exn \<Rightarrow> msg" where
  "remove_error_msg file_path e =
     (if e = PermissionError then ErrRemovePermission file_path else ErrRemove file_path e)"

definition convert_to_base64 :: "os_env \<Rightarrow> path \<Rightarrow> world \<Rightarrow> string option \<times> world" where
  "convert_to_base64 env file_path w =
     (case open_read env (files w) file_path of
        Inr bs \<Rightarrow> (Some (b64encode bs), w)
      | Inl e \<Rightarrow> (None, print (read_error_msg file_path e) w))"

definition save_failed :: "path \<Rightarrow> exn \<Rightarrow> world \<Rightarrow> bool \<times> world" where
  "save_failed output_path e w = (False, print (save_error_msg output_path e) w)"

text \<open>\<open>save_base64_to_file\<close>.  A write that fails leaves the stored files as
  they were; a write that succeeds is the event \<open>OsWrite p text None\<close>.\<close>

definition save_base64_to_file :: "os_env \<Rightarrow> string \<Rightarrow> path \<Rightarrow> world \<Rightarrow> bool \<times> world" where
  "save_base64_to_file env base64_str output_path w =
     (case os_makedirs env (dirname output_path) of
        Some e \<Rightarrow> save_failed output_path e w
      | None \<Rightarrow>
          (case write_error env output_path of
             Some e \<Rightarrow>
               save_failed output_path e
                 (w\<lparr>events := events w @ [OsWrite output_path base64_str (Some e)]\<rparr>)
           | None \<Rightarrow>
               (True, w\<lparr>files := (files w)(output_path \<mapsto> encode_utf8 base64_str),
                         events := events w @ [OsWrite output_path base64_str None]\<rparr>)))"

text \<open>\<open>os.remove\<close> and \<open>remove_file\<close>; every call of \<open>os.remove\<close> is an event
  \<open>OsRemove p r\<close> with its outcome.\<close>

definition remove_outcome :: "os_env \<Rightarrow> (path \<rightharpoonup> byte list) \<Rightarrow> path \<Rightarrow> exn option" where
  "remove_outcome env fs p =
     (case fs p of None \<Rightarrow> Some FileNotFoundError | Some bs \<Rightarrow> remove_error env p)"

definition os_remove :: "os_env \<Rightarrow> path \<Rightarrow> world \<Rightarrow> exn option \<times> world" where
  "os_remove env p w =
     (let r = remove_outcome env (files w) p;
          w' = w\<lparr>events := events w @ [OsRemove p r]\<rparr>
      in if r = None then (None, w'\<lparr>files := (files w)(p := None)\<rparr>) else (r, w'))"

definition remove_file :: "os_env \<Rightarrow> path \<Rightarrow> world \<Rightarrow> bool \<times> world" where
  "remove_file env file_path w =
     (case os_remove env file_path w of
        (None, w') \<Rightarrow> (True, w')
      | (Some e, w') \<Rightarrow> (False, print (remove_error_msg file_path e) w'))"

definition find_image_files :: "os_env \<Rightarrow> (path \<rightharpoonup> byte list) \<Rightarrow> path \<Rightarrow> bool \<Rightarrow> exn + path list" where
  "find_image_files env fs directory recursive =
     (if recursive then
        Inr (concat (map (\<lambda>(root, dirs, names).
               filter (\<lambda>file_path. lower (path_suffix file_path) \<in> set SUPPORTED_FORMATS)
                 (map (join root) names))
             (os_walk env directory)))
      else
        (case os_listdir env directory of
           Inl e \<Rightarrow> Inl e
         | Inr names \<Rightarrow>
             Inr (filter (\<lambda>file_path. isfile fs file_path \<and>
                            lower (path_suffix file_path) \<in> set SUPPORTED_FORMATS)
                    (map (join directory) names))))"

text \<open>The locals of the loop of \<open>process_images\<close> that change: the counters,
  next to the world.\<close>

record loop =
  lw :: world
  processed_files :: nat
  failed_files :: nat

definition failed :: "loop \<Rightarrow> loop" where
  "failed s = s\<lparr>failed_files := failed_files s + 1\<rparr>"

definition say :: "msg \<Rightarrow> loop \<Rightarrow> loop" where
  "say m s = s\<lparr>lw := print m (lw s)\<rparr>"

text \<open>Python's truth value of the optional \<open>output_dir\<close>: \<open>None\<close> and the empty
  string are false.\<close>

definition truthy :: "string option \<Rightarrow> bool" where
  "truthy x = (case x of None \<Rightarrow> False | Some v \<Rightarrow> v \<noteq> [])"

definition output_path_of :: "os_env \<Rightarrow> path option \<Rightarrow> path \<Rightarrow> exn + path" where
  "output_path_of env output_dir file_path =
     (if truthy output_dir then
        (case relpath (getcwd env) file_path (dirname file_path) of
           Inl e \<Rightarrow> Inl e
         | Inr rel_path \<Rightarrow> Inr (join (the output_dir) (fst (splitext rel_path) @ ''.txt'')))
      else Inr (fst (splitext file_path) @ ''.txt''))"

text \<open>The end of the loop body: progress and estimated remaining time.  The
  division by \<open>total_files\<close> raises when it is zero.\<close>

definition report :: "os_env \<Rightarrow> nat \<Rightarrow> real \<Rightarrow> loop \<Rightarrow> exn + loop" where
  "report env total_files start_time s =
     (let (now, w1) = time_time env (lw s);
          elapsed_time = now - start_time
      in if total_files = 0 then Inl ZeroDivisionError
         else
           let progress = real (processed_files s) / real total_files
           in if processed_files s > 1 then
                let avg_time_per_file = elapsed_time / real (processed_files s);
                    remaining_files = int total_files - int (processed_files s);
                    estimated_time = avg_time_per_file * real_of_int remaining_files
                in Inr (s\<lparr>lw := print (ProgressLine progress elapsed_time estimated_time) w1\<rparr>)
              else Inr (s\<lparr>lw := w1\<rparr>))"

text \<open>Whether \<open>save_base64_to_file\<close> succeeds for an output path.\<close>

definition saved :: "os_env \<Rightarrow> path \<Rightarrow> bool" where
  "saved env out = (os_makedirs env (dirname out) = None \<and> write_error env out = None)"

text \<open>The part of the loop body from the write on.\<close>

definition save_and_remove :: "os_env \<Rightarrow> path \<Rightarrow> string \<Rightarrow> path \<Rightarrow> loop \<Rightarrow> loop" where
  "save_and_remove env file_path base64_str output_path s =
     (case save_base64_to_file env base64_str output_path (lw s) of
        (True, w1) \<Rightarrow>
          (case remove_file env file_path w1 of
             (True, w2) \<Rightarrow> s\<lparr>lw := print (Success file_path output_path) w2\<rparr>
           | (False, w2) \<Rightarrow> failed (s\<lparr>lw := print (PartialSuccess output_path) w2\<rparr>))
      | (False, w1) \<Rightarrow> failed (s\<lparr>lw := w1\<rparr>))"

text \<open>One turn of the loop of \<open>process_images\<close>.  An exception that no handler
  of the source takes (from \<open>os.path.getsize\<close>, \<open>os.path.relpath\<close> or a
  division) ends the turn with \<open>Inl\<close>; each \<open>continue\<close> is a branch that
  returns without the report.\<close>

definition process_file :: "os_env \<Rightarrow> path option \<Rightarrow> nat \<Rightarrow> real \<Rightarrow> path \<Rightarrow> loop \<Rightarrow> exn + loop" where
  "process_file env output_dir total_files start_time file_path s0 =
     (let s1 = s0\<lparr>processed_files := processed_files s0 + 1\<rparr>;
          s2 = say (Processing file_path (processed_files s1) total_files) s1
      in (case is_valid_image env (files (lw s2)) file_path of
            Inl e \<Rightarrow> Inl e
          | Inr valid \<Rightarrow>
              (if \<not> valid then Inr (failed (say (SkipInvalid file_path) s2))
               else
                 (let (free, w3) = get_free_space env (dirname file_path) (lw s2)
                  in (case getsize (files w3) file_path of
                        Inl e \<Rightarrow> Inl e
                      | Inr sz \<Rightarrow>
                          (if free < sz * 2
                           then Inr (failed (s2\<lparr>lw := print (ErrNoSpace file_path) w3\<rparr>))
                           else
                             (case convert_to_base64 env file_path w3 of
                                (None, w4) \<Rightarrow> Inr (failed (s2\<lparr>lw := w4\<rparr>))
                              | (Some base64_str, w4) \<Rightarrow>
                                  (case output_path_of env output_dir file_path of
                                     Inl e \<Rightarrow> Inl e
                                   | Inr output_path \<Rightarrow>
                                       report env total_files start_time
                                         (save_and_remove env file_path base64_str output_path
                                            (s2\<lparr>lw := w4\<rparr>))))))))))"

fun process_loop :: "os_env \<Rightarrow> path option \<Rightarrow> nat \<Rightarrow> real \<Rightarrow> path list \<Rightarrow> loop \<Rightarrow> exn + loop" where
  "process_loop env output_dir total_files start_time [] s = Inr s"
| "process_loop env output_dir total_files start_time (file_path # rest) s =
     (case process_file env output_dir total_files start_time file_path s of
        Inl e \<Rightarrow> Inl e
      | Inr s' \<Rightarrow> process_loop env output_dir total_files start_time rest s')"

definition process_images :: "os_env \<Rightarrow> path list \<Rightarrow> path option \<Rightarrow> world \<Rightarrow> exn + ((int \<times> nat) \<times> world)" where
  "process_images env image_files output_dir w =
     (let total_files = length image_files;
          (start_time, w0) = time_time env w
      in case process_loop env output_dir total_files start_time image_files
                \<lparr>lw = w0, processed_files = 0, failed_files = 0\<rparr> of
           Inl e \<Rightarrow> Inl e
         | Inr s \<Rightarrow> Inr ((int (processed_files s) - int (failed_files s), failed_files s), lw s))"

text \<open>The parsed command line of variant A and \<open>main\<close>, which returns the exit
  code.  \<open>sys.exit(main())\<close> makes it the status of the process; an exception
  that leaves \<open>main\<close> ends the interpreter with status 1.\<close>

record args =
  directory :: path
  no_recursive :: bool
  output_dir :: "path option"

definition main :: "os_env \<Rightarrow> args \<Rightarrow> world \<Rightarrow> exn + (int \<times> world)" where
  "main env a w =
     (if \<not> isdir env (directory a) then Inr (1, print (ErrNoDirectory (directory a)) w)
      else
        (let created =
               (if truthy (output_dir a) \<and> \<not> path_exists env (the (output_dir a)) then
                  (case os_makedirs env (the (output_dir a)) of
                     None \<Rightarrow> Inr (print (CreatedOutputDir (the (output_dir a))) w)
                   | Some e \<Rightarrow> Inl (print (ErrCreateOutputDir (the (output_dir a)) e) w))
                else Inr w)
         in (case created of
               Inl w1 \<Rightarrow> Inr (1, w1)
             | Inr w1 \<Rightarrow>
                 (let w2 = print (StartScan (directory a) (no_recursive a)) w1
                  in (case find_image_files env (files w2) (directory a) (\<not> no_recursive a) of
                        Inl e \<Rightarrow> Inl e
                      | Inr image_files \<Rightarrow>
                          (if image_files = [] then Inr (0, print NoImagesFound w2)
                           else
                             (case process_images env image_files (output_dir a)
                                     (print (FoundImages (length image_files)) w2) of
                                Inl e \<Rightarrow> Inl e
                              | Inr ((success_count, failed_count), w3) \<Rightarrow>
                                  (let w4 = print (SuccessCount (nat success_count))
                                              (print Finished w3);
                                       w5 = (if failed_count > 0
                                             then print (FailedCount failed_count) w4 else w4)
                                   in Inr (if failed_count = 0 then 0 else 1, w5)))))))))"

definition exit_status :: "exn + (int \<times> world) \<Rightarrow> int" where
  "exit_status r = (case r of Inl e \<Rightarrow> 1 | Inr (code, w) \<Rightarrow> code)"

subsection \<open>Variant B: \<^verbatim>\<open>scripts/img_2_base_64/img_to_base64.py\<close>\<close>

definition SUPPORTED_FORMATS_b :: "string list" where
  "SUPPORTED_FORMATS_b = [''.jpg'', ''.jpeg'', ''.png'', ''.gif'', ''.bmp'', ''.webp'']"

definition is_image_file :: "path \<Rightarrow> bool" where
  "is_image_file file_path = (lower (path_suffix file_path) \<in> set SUPPORTED_FORMATS_b)"

definition convert_to_base64_b :: "os_env \<Rightarrow> path \<Rightarrow> world \<Rightarrow> string \<times> world" where
  "convert_to_base64_b env file_path w =
     (case open_read env (files w) file_path of
        Inr bs \<Rightarrow> (b64encode bs, w)
      | Inl e \<Rightarrow> ([], print (ErrProcess file_path e) w))"

text \<open>A Python \<open>dict\<close> keeps its keys in the order of their first insertion; an
  assignment to a key that is present replaces the value in place.\<close>

type_synonym dict = "(string \<times> string) list"

fun dict_set :: "string \<Rightarrow> string \<Rightarrow> dict \<Rightarrow> dict" where
  "dict_set k v [] = [(k, v)]"
| "dict_set k v ((k', v') # d) = (if k' = k then (k, v) # d else (k', v') # dict_set k v d)"

record scan =
  sw :: world
  base64_dict :: dict
  processed_b :: nat

definition forward_slashes :: "string \<Rightarrow> string" where
  "forward_slashes s = map (\<lambda>c. if c = CHR 0x5C then CHR ''/'' else c) s"

text \<open>One turn of the inner loop of \<open>scan_directory\<close>, for a file name that
  passed \<open>is_image_file\<close>.\<close>

definition scan_file :: "os_env \<Rightarrow> path \<Rightarrow> nat \<Rightarrow> path \<times> string \<Rightarrow> scan \<Rightarrow> exn + scan" where
  "scan_file env dir total_files rf s =
     (let file_path = join (fst rf) (snd rf)
      in case relpath (getcwd env) file_path dir of
           Inl e \<Rightarrow> Inl e
         | Inr rel \<Rightarrow>
             let relative_path = forward_slashes rel;
                 w1 = print (Processing relative_path (processed_b s + 1) total_files) (sw s);
                 (base64_str, w2) = convert_to_base64_b env file_path w1;
                 d = (if base64_str \<noteq> [] then dict_set relative_path base64_str (base64_dict s)
                      else base64_dict s);
                 n = processed_b s + 1
             in if total_files = 0 then Inl ZeroDivisionError
                else Inr \<lparr>sw = print (ProgressPercent (real n / real total_files * 100)) w2,
                          base64_dict = d, processed_b = n\<rparr>)"

fun scan_loop :: "os_env \<Rightarrow> path \<Rightarrow> nat \<Rightarrow> (path \<times> string) list \<Rightarrow> scan \<Rightarrow> exn + scan" where
  "scan_loop env dir total_files [] s = Inr s"
| "scan_loop env dir total_files (rf # rest) s =
     (case scan_file env dir total_files rf s of
        Inl e \<Rightarrow> Inl e
      | Inr s' \<Rightarrow> scan_loop env dir total_files rest s')"

text \<open>The files the two nested loops of \<open>scan_directory\<close> visit, in their
  order: for every directory of the walk, its file names that pass
  \<open>is_image_file\<close>.\<close>

definition discovered :: "os_env \<Rightarrow> path \<Rightarrow> (path \<times> string) list" where
  "discovered env dir =
     concat (map (\<lambda>(root, dirs, names). map (Pair root) (filter is_image_file names))
               (os_walk env dir))"

definition scan_directory :: "os_env \<Rightarrow> path \<Rightarrow> world \<Rightarrow> exn + (dict \<times> world)" where
  "scan_directory env dir w =
     (let total_files = sum_list (map (\<lambda>(root, dirs, names). length (filter is_image_file names))
                                   (os_walk env dir))
      in case scan_loop env dir total_files (discovered env dir)
                \<lparr>sw = w, base64_dict = [], processed_b = 0\<rparr> of
           Inl e \<Rightarrow> Inl e
         | Inr s \<Rightarrow> Inr (base64_dict s, print Finished (sw s)))"

text \<open>\<open>generate_dart_file\<close>.  The header comment is given by its UTF-8 bytes.
  The loop runs over \<open>sorted(base64_dict.keys())\<close>; strings are compared
  character by character, as Python does.\<close>

definition dart_header :: string where
  "dart_header = map char_of
     [47, 47, 32, 230, 173, 164, 230, 150, 135, 228, 187, 182, 231, 148, 177, 32, 80, 121,
      116, 104, 111, 110, 32, 232, 132, 154, 230, 156, 172, 232, 135, 170, 229, 138, 168,
      231, 148, 159, 230, 136, 144, 239, 188, 140, 232, 175, 183, 229, 139, 191, 230, 137,
      139, 229, 138, 168, 228, 191, 174, 230, 148, 185, 10, 10 :: nat]"

definition sorted_keys :: "dict \<Rightarrow> string list" where
  "sorted_keys d = sort (map fst d)"

text \<open>\<open>base64_dict[key]\<close>; the keys of the loop are keys of the dictionary, so
  the lookup finds a value (lemma \<open>dict_get_sorted_keys\<close>).\<close>

definition dict_get :: "dict \<Rightarrow> string \<Rightarrow> string" where
  "dict_get d key = (case map_of d key of Some v \<Rightarrow> v | None \<Rightarrow> [])"

definition entry_line :: "string \<Rightarrow> string \<Rightarrow> string" where
  "entry_line key v =
     ''  '' @ [CHR 0x27] @ key @ [CHR 0x27] @ '': '' @ replicate 3 (CHR 0x27) @ v
       @ replicate 3 (CHR 0x27) @ '','' @ [CHR 0x0A]"

definition dart_text :: "dict \<Rightarrow> string" where
  "dart_text d =
     dart_header @ ''const Map<String, String> base64Images = {'' @ [CHR 0x0A]
       @ concat (map (\<lambda>key. entry_line key (dict_get d key)) (sorted_keys d))
       @ ''};'' @ [CHR 0x0A]"

definition generate_dart_file :: "os_env \<Rightarrow> dict \<Rightarrow> path \<Rightarrow> world \<Rightarrow> world" where
  "generate_dart_file env d output_file w =
     (case os_makedirs env (dirname output_file) of
        Some e \<Rightarrow> print (ErrDart e) w
      | None \<Rightarrow>
          (case write_error env output_file of
             Some e \<Rightarrow>
               print (ErrDart e)
                 (w\<lparr>events := events w @ [OsWrite output_file (dart_text d) (Some e)]\<rparr>)
           | None \<Rightarrow>
               print (DartGenerated output_file)
                 (w\<lparr>files := (files w)(output_file \<mapsto> encode_utf8 (dart_text d)),
                    events := events w @ [OsWrite output_file (dart_text d) None]\<rparr>)))"

definition main_b :: "os_env \<Rightarrow> path \<Rightarrow> path \<Rightarrow> world \<Rightarrow> exn + world" where
  "main_b env dir output w =
     (if \<not> isdir env dir then Inr (print (ErrNoDirectory dir) w)
      else
        (case scan_directory env dir (print (StartScan dir False) w) of
           Inl e \<Rightarrow> Inl e
         | Inr (d, w1) \<Rightarrow>
             if d = [] then Inr (print WarnNoImages w1)
             else Inr (generate_dart_file env d (abspath (getcwd env) output) w1)))"

subsection \<open>A small concrete world\<close>

text \<open>A directory \<open>imgs\<close> with a file \<open>b.png\<close> that is not an image, a text file
  and a subdirectory \<open>sub\<close> with a PNG image \<open>a.png\<close>.  Nothing fails, the
  volume has 1000 free bytes and the clock advances one second per reading.\<close>

definition png_bytes :: "byte list" where
  "png_bytes = [0x89, 0x50, 0x4E, 0x47, 0x0D, 0x0A, 0x1A, 0x0A, 1, 2]"

definition demo_env :: os_env where
  "demo_env = \<lparr>
     sniff_error = (\<lambda>p. None),
     read_error = (\<lambda>p. None),
     write_error = (\<lambda>p. None),
     remove_error = (\<lambda>p. None),
     makedirs_error = (\<lambda>p. None),
     disk_usage = (\<lambda>fs p. Inr (1000, 0, 1000)),
     imghdr_tests = (\<lambda>h. if take 4 h = [0x89, 0x50, 0x4E, 0x47] then Some ''png'' else None),
     os_walk = (\<lambda>d. if d = ''imgs''
                     then [(''imgs'', [''sub''], [''b.png'', ''notes.md'']),
                           (''imgs/sub'', [], [''a.png''])]
                     else []),
     os_listdir = (\<lambda>d. if d = ''imgs'' then Inr [''sub'', ''b.png'', ''notes.md'']
                        else Inl FileNotFoundError),
     isdir = (\<lambda>p. p = ''imgs'' \<or> p = ''imgs/sub''),
     path_exists = (\<lambda>p. p = ''imgs'' \<or> p = ''imgs/sub''),
     getcwd = ''/home/u'',
     clock = (\<lambda>n. real n) \<rparr>"

definition demo_world :: world where
  "demo_world = \<lparr> files = [''imgs/sub/a.png'' \<mapsto> png_bytes, ''imgs/b.png'' \<mapsto> [1, 2, 3]],
                   events = [], ticks = 0 \<rparr>"

section \<open>Properties\<close>

subsection \<open>Base64 round trip\<close>

lemma b64_alphabet_inverse:
  "\<forall>i \<in> set [0..<64]. b64_index (b64_char i) = Some i \<and> b64_char i \<noteq> CHR ''=''"
  by code_simp

lemma b64_index_char: "i < 64 \<Longrightarrow> b64_index (b64_char i) = Some i"
  using b64_alphabet_inverse by simp

lemma b64_char_not_pad: "i < 64 \<Longrightarrow> b64_char i \<noteq> CHR ''=''"
  using b64_alphabet_inverse by simp

lemma div_4096: "(n::nat) div 4096 = n div 64 div 64"
  using div_mult2_eq[of n 64 64] by simp

lemma div_262144: "(n::nat) div 262144 = n div 64 div 64 div 64"
  using div_mult2_eq[of n 4096 64] by (simp add: div_4096)

lemma div_65536: "(n::nat) div 65536 = n div 256 div 256"
  using div_mult2_eq[of n 256 256] by simp

lemma sextets_recompose:
  fixes n :: nat
  shows "((n div 262144 * 64 + n div 4096 mod 64) * 64 + n div 64 mod 64) * 64 + n mod 64 = n"
  by (simp add: div_4096 div_262144)

lemma sextets_quad:
  assumes "n < 16777216"
  shows "sextets (b64_quad n) = Some n"
proof -
  have "n div 262144 < 64" using assms by simp
  then show ?thesis
    using sextets_recompose[of n] by (simp add: sextets_def b64_quad_def b64_index_char)
qed

lemma split_low:
  fixes h l :: nat
  assumes "l < 256"
  shows "(h * 256 + l) mod 256 = l" and "(h * 256 + l) div 256 = h"
  using assms by simp_all

lemma unat_byte_lt: "unat (a::byte) < 256"
proof -
  have "unat a < 2 ^ LENGTH(8)" by (rule unsigned_less)
  then show ?thesis by simp
qed

lemma bytes3_compose:
  "bytes3 (unat a * 65536 + unat b * 256 + unat c) = [a, b, c]"
proof -
  define n where "n = unat a * 65536 + unat b * 256 + unat c"
  have n: "n = (unat a * 256 + unat b) * 256 + unat c" by (simp add: n_def)
  have 1: "n mod 256 = unat c" unfolding n using unat_byte_lt by (rule split_low)
  have 2: "n div 256 = unat a * 256 + unat b" unfolding n using unat_byte_lt by (rule split_low)
  have 3: "n div 256 mod 256 = unat b" unfolding 2 using unat_byte_lt by (rule split_low)
  have 4: "n div 65536 = unat a" unfolding div_65536 2 using unat_byte_lt by (rule split_low)
  show ?thesis unfolding n_def[symmetric] bytes3_def 1 3 4 by simp
qed

lemma group_bound:
  "unat (a::byte) * 65536 + unat (b::byte) * 256 + unat (c::byte) < 16777216"
  using unat_byte_lt[of b] unat_byte_lt[of c] unat_byte_lt[of a] by simp

lemma decode_last_unpadded:
  "c4 \<noteq> CHR ''='' \<Longrightarrow> decode_last c1 c2 c3 c4 = map_option bytes3 (sextets [c1, c2, c3, c4])"
  by (simp add: decode_last_def)

lemma b64decode_group:
  "b64decode (b64_quad (unat a * 65536 + unat b * 256 + unat c) @ rest)
     = map_option ((@) [a, b, c]) (b64decode rest)"
proof -
  define n where "n = unat a * 65536 + unat b * 256 + unat c"
  have lt: "n < 16777216" unfolding n_def by (rule group_bound)
  have s: "sextets (b64_quad n) = Some n" using lt by (rule sextets_quad)
  have by3: "bytes3 n = [a, b, c]" unfolding n_def by (rule bytes3_compose)
  have np: "b64_char (n mod 64) \<noteq> CHR ''=''" by (simp add: b64_char_not_pad)
  obtain c1 c2 c3 c4 where q: "b64_quad n = [c1, c2, c3, c4]" and c4: "c4 = b64_char (n mod 64)"
    by (simp add: b64_quad_def)
  show ?thesis
    unfolding n_def[symmetric]
    using s by3 np c4 by (cases "rest = []") (simp_all add: q decode_last_unpadded)
qed

lemma low_sextets_zero1:
  fixes x :: nat
  shows "x * 65536 mod 64 = 0" and "x * 65536 div 64 mod 64 = 0"
proof -
  have a: "x * 65536 = (x * 1024) * 64" by simp
  show "x * 65536 mod 64 = 0" unfolding a by (rule mod_mult_self2_is_0)
  have b: "x * 65536 div 64 = (x * 16) * 64" unfolding a by simp
  show "x * 65536 div 64 mod 64 = 0" unfolding b by (rule mod_mult_self2_is_0)
qed

lemma low_sextets_zero2:
  fixes x y :: nat
  shows "(x * 65536 + y * 256) mod 64 = 0"
proof -
  have a: "x * 65536 + y * 256 = (x * 1024 + y * 4) * 64" by simp
  show ?thesis unfolding a by (rule mod_mult_self2_is_0)
qed

lemma b64decode_one_byte:
  "b64decode (take 2 (b64_quad (unat a * 65536)) @ ''=='') = Some [a]"
proof -
  define n where "n = unat a * 65536"
  have "bytes3 (unat a * 65536 + unat (0::byte) * 256 + unat (0::byte)) = [a, 0, 0]"
    by (rule bytes3_compose)
  then have by3: "bytes3 n = [a, 0, 0]" by (simp add: n_def)
  have z: "n mod 64 = 0" "n div 64 mod 64 = 0"
    unfolding n_def by (rule low_sextets_zero1)+
  have i1: "n div 262144 < 64" using unat_byte_lt[of a] by (simp add: n_def)
  have e: "(n div 262144 * 64 + n div 4096 mod 64) * 4096 = n"
    using sextets_recompose[of n] z by simp
  show ?thesis
    unfolding n_def[symmetric]
    using i1 by3 e
    by (simp add: b64_quad_def decode_last_def sextets_def b64_index_char)
qed

lemma b64decode_two_bytes:
  "b64decode (take 3 (b64_quad (unat a * 65536 + unat b * 256)) @ ''='') = Some [a, b]"
proof -
  define n where "n = unat a * 65536 + unat b * 256"
  have "bytes3 (unat a * 65536 + unat b * 256 + unat (0::byte)) = [a, b, 0]"
    by (rule bytes3_compose)
  then have by3: "bytes3 n = [a, b, 0]" by (simp add: n_def)
  have z: "n mod 64 = 0"
    unfolding n_def by (rule low_sextets_zero2)
  have "n < 16777216" using group_bound[of a b 0] by (simp add: n_def)
  then have i1: "n div 262144 < 64" by simp
  have e: "((n div 262144 * 64 + n div 4096 mod 64) * 64 + n div 64 mod 64) * 64 = n"
    using sextets_recompose[of n] z by simp
  have np: "b64_char (n div 64 mod 64) \<noteq> CHR ''=''" by (simp add: b64_char_not_pad)
  show ?thesis
    unfolding n_def[symmetric]
    using i1 by3 e np
    by (simp add: b64_quad_def decode_last_def sextets_def b64_index_char)
qed

lemma b64decode_b64encode: "b64decode (b64encode bs) = Some bs"
proof (induction bs rule: b64encode.induct)
  case 1
  show ?case by simp
next
  case (2 a)
  show ?case unfolding b64encode.simps by (rule b64decode_one_byte)
next
  case (3 a b)
  show ?case unfolding b64encode.simps by (rule b64decode_two_bytes)
next
  case (4 a b c rest)
  then show ?case unfolding b64encode.simps b64decode_group by simp
qed

lemma length_b64encode: "length (b64encode bs) = 4 * ((length bs + 2) div 3)"
proof (induction bs rule: b64encode.induct)
  case (4 a b c rest)
  have "(length (a # b # c # rest) + 2) div 3 = (length rest + 2) div 3 + 1"
    by simp
  with 4 show ?case by (simp add: b64_quad_def)
qed (simp_all add: b64_quad_def)

text \<open>
  Claim C2.  Whenever the bytes \<open>bs\<close> of a file are read, the encoder of variant A
  returns a text and the encoder of variant B returns the same text; the text
  has four characters for every group of three bytes, the last group padded,
  and decoding it gives \<open>bs\<close> back.
\<close>

theorem encoder_round_trip:
  assumes "open_read env (files w) file_path = Inr bs"
  shows "\<exists>s. fst (convert_to_base64 env file_path w) = Some s
            \<and> fst (convert_to_base64_b env file_path w) = s
            \<and> length s = 4 * ((length bs + 2) div 3)
            \<and> b64decode s = Some bs"
  using assms
  by (simp add: convert_to_base64_def convert_to_base64_b_def b64decode_b64encode
        length_b64encode)

theorem encoder_round_trip_witness:
  "open_read demo_env (files demo_world) ''imgs/sub/a.png'' = Inr png_bytes
   \<and> (\<exists>s. fst (convert_to_base64 demo_env ''imgs/sub/a.png'' demo_world) = Some s
          \<and> fst (convert_to_base64_b demo_env ''imgs/sub/a.png'' demo_world) = s
          \<and> length s = 4 * ((length png_bytes + 2) div 3)
          \<and> b64decode s = Some png_bytes)"
proof -
  have h: "open_read demo_env (files demo_world) ''imgs/sub/a.png'' = Inr png_bytes"
    by (simp add: open_read_def demo_env_def demo_world_def)
  from encoder_round_trip[OF h] h show ?thesis by simp
qed

subsection \<open>Effects of the helper functions\<close>

lemma files_print [simp]: "files (print m w) = files w"
  by (simp add: print_def)

lemma events_print [simp]: "events (print m w) = events w @ [Print m]"
  by (simp add: print_def)

lemma ticks_print [simp]: "ticks (print m w) = ticks w"
  by (simp add: print_def)

lemma fs_ops_simps [simp]:
  "fs_ops [] = []"
  "fs_ops (xs @ ys) = fs_ops xs @ fs_ops ys"
  "fs_ops (Print m # xs) = fs_ops xs"
  "fs_ops (OsWrite p t r # xs) = OsWrite p t r # fs_ops xs"
  "fs_ops (OsRemove p r # xs) = OsRemove p r # fs_ops xs"
  by (simp_all add: fs_ops_def)

lemma new_events_append [simp]: "events w' = events w @ xs \<Longrightarrow> new_events w w' = xs"
  by (simp add: new_events_def)

lemma get_free_space_effect [simp]:
  "files (snd (get_free_space env d w)) = files w"
  "ticks (snd (get_free_space env d w)) = ticks w"
  "events (snd (get_free_space env d w)) =
     events w @ (case disk_usage env (files w) d of
                   Inl e \<Rightarrow> [Print (WarnDiskUsage e)] | Inr u \<Rightarrow> [])"
  by (simp_all add: get_free_space_def split: sum.splits prod.splits)

lemma get_free_space_files_only:
  "files w = files w' \<Longrightarrow> fst (get_free_space env d w) = fst (get_free_space env d w')"
  by (simp add: get_free_space_def split: sum.splits prod.splits)

lemma convert_to_base64_effect [simp]:
  "files (snd (convert_to_base64 env p w)) = files w"
  "ticks (snd (convert_to_base64 env p w)) = ticks w"
  "events (snd (convert_to_base64 env p w)) =
     events w @ (case open_read env (files w) p of
                   Inr bs \<Rightarrow> [] | Inl e \<Rightarrow> [Print (read_error_msg p e)])"
  "fst (convert_to_base64 env p w) =
     (case open_read env (files w) p of Inr bs \<Rightarrow> Some (b64encode bs) | Inl e \<Rightarrow> None)"
  by (simp_all add: convert_to_base64_def split: sum.splits)

lemma save_base64_to_file_effect [simp]:
  "fst (save_base64_to_file env t out w) =
     (os_makedirs env (dirname out) = None \<and> write_error env out = None)"
  "files (snd (save_base64_to_file env t out w)) =
     (if os_makedirs env (dirname out) = None \<and> write_error env out = None
      then (files w)(out \<mapsto> encode_utf8 t) else files w)"
  "ticks (snd (save_base64_to_file env t out w)) = ticks w"
  "events (snd (save_base64_to_file env t out w)) =
     events w @ (case os_makedirs env (dirname out) of
                   Some e \<Rightarrow> [Print (save_error_msg out e)]
                 | None \<Rightarrow> (case write_error env out of
                              Some e \<Rightarrow> [OsWrite out t (Some e), Print (save_error_msg out e)]
                            | None \<Rightarrow> [OsWrite out t None]))"
  by (simp_all add: save_base64_to_file_def save_failed_def split: option.splits)

lemma remove_file_effect [simp]:
  "fst (remove_file env f w) = (remove_outcome env (files w) f = None)"
  "files (snd (remove_file env f w)) =
     (if remove_outcome env (files w) f = None then (files w)(f := None) else files w)"
  "ticks (snd (remove_file env f w)) = ticks w"
  "events (snd (remove_file env f w)) =
     events w @ OsRemove f (remove_outcome env (files w) f)
       # (case remove_outcome env (files w) f of
            None \<Rightarrow> [] | Some e \<Rightarrow> [Print (remove_error_msg f e)])"
  by (simp_all add: remove_file_def os_remove_def Let_def split: option.splits)


lemma failed_simps [simp]:
  "lw (failed s) = lw s"
  "processed_files (failed s) = processed_files s"
  "failed_files (failed s) = failed_files s + 1"
  by (simp_all add: failed_def)

lemma say_simps [simp]:
  "lw (say m s) = print m (lw s)"
  "processed_files (say m s) = processed_files s"
  "failed_files (say m s) = failed_files s"
  by (simp_all add: say_def)

lemma save_and_remove_unfold:
  "save_and_remove env f t out s =
     (if saved env out then
        (if remove_outcome env ((files (lw s))(out \<mapsto> encode_utf8 t)) f = None
         then s\<lparr>lw := print (Success f out)
                        (snd (remove_file env f (snd (save_base64_to_file env t out (lw s)))))\<rparr>
         else failed (s\<lparr>lw := print (PartialSuccess out)
                        (snd (remove_file env f (snd (save_base64_to_file env t out (lw s)))))\<rparr>))
      else failed (s\<lparr>lw := snd (save_base64_to_file env t out (lw s))\<rparr>))"
proof -
  obtain b1 w1 where r1: "save_base64_to_file env t out (lw s) = (b1, w1)"
    by (cases "save_base64_to_file env t out (lw s)")
  obtain b2 w2 where r2: "remove_file env f w1 = (b2, w2)"
    by (cases "remove_file env f w1")
  have b1: "b1 = saved env out"
    using save_base64_to_file_effect(1)[of env t out "lw s"] r1 by (simp add: saved_def)
  have f1: "saved env out \<Longrightarrow> files w1 = (files (lw s))(out \<mapsto> encode_utf8 t)"
    using save_base64_to_file_effect(2)[of env t out "lw s"] r1 by (simp add: saved_def)
  have b2: "b2 = (remove_outcome env (files w1) f = None)"
    using remove_file_effect(1)[of env f w1] r2 by simp
  show ?thesis
    using b1 b2 f1 by (cases b1; cases b2) (auto simp: save_and_remove_def r1 r2)
qed

lemma save_and_remove_effect:
  "processed_files (save_and_remove env f t out s) = processed_files s"
  "failed_files (save_and_remove env f t out s) =
     (if saved env out \<and> remove_outcome env ((files (lw s))(out \<mapsto> encode_utf8 t)) f = None
      then failed_files s else failed_files s + 1)"
  "ticks (lw (save_and_remove env f t out s)) = ticks (lw s)"
  "files (lw (save_and_remove env f t out s)) =
     (if saved env out then
        (if remove_outcome env ((files (lw s))(out \<mapsto> encode_utf8 t)) f = None
         then ((files (lw s))(out \<mapsto> encode_utf8 t))(f := None)
         else (files (lw s))(out \<mapsto> encode_utf8 t))
      else files (lw s))"
  "events (lw (save_and_remove env f t out s)) =
     events (lw s) @
     (if saved env out then
        [OsWrite out t None,
         OsRemove f (remove_outcome env ((files (lw s))(out \<mapsto> encode_utf8 t)) f)] @
        (case remove_outcome env ((files (lw s))(out \<mapsto> encode_utf8 t)) f of
           None \<Rightarrow> [Print (Success f out)]
         | Some e \<Rightarrow> [Print (remove_error_msg f e), Print (PartialSuccess out)])
      else
        (case os_makedirs env (dirname out) of
           Some e \<Rightarrow> [Print (save_error_msg out e)]
         | None \<Rightarrow> (case write_error env out of
                      Some e \<Rightarrow> [OsWrite out t (Some e), Print (save_error_msg out e)]
                    | None \<Rightarrow> [])))"
  unfolding save_and_remove_unfold
  by (auto simp: saved_def split: option.splits)

lemma report_effect:
  assumes "report env tot start s = Inr s'"
  shows "tot \<noteq> 0"
    and "processed_files s' = processed_files s"
    and "failed_files s' = failed_files s"
    and "files (lw s') = files (lw s)"
    and "events (lw s') = events (lw s) @
           (if processed_files s > 1
            then [Print (ProgressLine (real (processed_files s) / real tot)
                    (clock env (ticks (lw s)) - start)
                    ((clock env (ticks (lw s)) - start) / real (processed_files s)
                       * real_of_int (int tot - int (processed_files s))))]
            else [])"
  using assms
  by (auto simp: report_def time_time_def Let_def split: if_splits)


lemma is_valid_image_True:
  assumes "is_valid_image env fs f = Inr True"
  shows "lower (path_suffix f) \<in> set SUPPORTED_FORMATS" and "\<exists>bs. fs f = Some bs" and "f \<noteq> []"
proof -
  show 1: "lower (path_suffix f) \<in> set SUPPORTED_FORMATS"
    using assms by (auto simp: is_valid_image_def Let_def split: if_splits)
  show "\<exists>bs. fs f = Some bs"
    using assms
    by (auto simp: is_valid_image_def imghdr_what_def Let_def split: if_splits option.splits)
  have "lower (path_suffix []) \<notin> set SUPPORTED_FORMATS"
    by (simp add: path_suffix_def path_name_def path_parts_def name_suffix_def rfind_def
          lower_def SUPPORTED_FORMATS_def)
  with 1 show "f \<noteq> []" by auto
qed

lemma is_valid_image_cases:
  "is_valid_image env fs f = Inr True \<or> is_valid_image env fs f = Inr False"
  by (auto simp: is_valid_image_def Let_def split: sum.splits)

lemma output_path_of_total:
  "f \<noteq> [] \<Longrightarrow> \<exists>out. output_path_of env od f = Inr out"
  by (simp add: output_path_of_def relpath_def Let_def)

lemma process_file_unfold:
  "process_file env od tot start f s =
     (let s2 = say (Processing f (processed_files s + 1) tot)
                 (s\<lparr>processed_files := processed_files s + 1\<rparr>);
          w3 = snd (get_free_space env (dirname f) (lw s2));
          w4 = snd (convert_to_base64 env f w3)
      in if is_valid_image env (files (lw s)) f \<noteq> Inr True
         then Inr (failed (say (SkipInvalid f) s2))
         else case getsize (files (lw s)) f of
                Inl e \<Rightarrow> Inl e
              | Inr sz \<Rightarrow>
                  if fst (get_free_space env (dirname f) (lw s)) < sz * 2
                  then Inr (failed (s2\<lparr>lw := print (ErrNoSpace f) w3\<rparr>))
                  else (case open_read env (files (lw s)) f of
                          Inl e \<Rightarrow> Inr (failed (s2\<lparr>lw := w4\<rparr>))
                        | Inr bs \<Rightarrow>
                            (case output_path_of env od f of
                               Inl e \<Rightarrow> Inl e
                             | Inr out \<Rightarrow>
                                 report env tot start
                                   (save_and_remove env f (b64encode bs) out (s2\<lparr>lw := w4\<rparr>)))))"
proof -
  define s2 where "s2 = say (Processing f (processed_files s + 1) tot)
                 (s\<lparr>processed_files := processed_files s + 1\<rparr>)"
  have fs2: "files (lw s2) = files (lw s)" by (simp add: s2_def)
  obtain free w3 where g: "get_free_space env (dirname f) (lw s2) = (free, w3)"
    by (cases "get_free_space env (dirname f) (lw s2)")
  have free: "free = fst (get_free_space env (dirname f) (lw s))"
    using get_free_space_files_only[OF fs2, of env "dirname f"] g by simp
  have fw3: "files w3 = files (lw s)"
    using get_free_space_effect(1)[of env "dirname f" "lw s2"] g fs2 by simp
  obtain b w4 where c: "convert_to_base64 env f w3 = (b, w4)"
    by (cases "convert_to_base64 env f w3")
  have b: "b = (case open_read env (files (lw s)) f of
                  Inr bs \<Rightarrow> Some (b64encode bs) | Inl e \<Rightarrow> None)"
    using convert_to_base64_effect(4)[of env f w3] c fw3 by simp
  have fold: "say (Processing f (processed_files (s\<lparr>processed_files := processed_files s + 1\<rparr>)) tot)
                 (s\<lparr>processed_files := processed_files s + 1\<rparr>) = s2"
    by (simp add: s2_def)
  have w3: "snd (get_free_space env (dirname f) (lw s2)) = w3" using g by simp
  have w4: "snd (convert_to_base64 env f w3) = w4" using c by simp
  show ?thesis
    using is_valid_image_cases[of env "files (lw s)" f]
    unfolding process_file_def Let_def fold s2_def[symmetric] fs2 g w3 w4 prod.case fw3 c
    by (auto simp: free b c g split: sum.splits)
qed

subsection \<open>One turn of the loop of \<open>process_images\<close>\<close>

lemma process_file_skip_invalid:
  assumes "is_valid_image env (files (lw s)) f \<noteq> Inr True"
  shows "process_file env od tot start f s =
           Inr (failed (say (SkipInvalid f) (say (Processing f (processed_files s + 1) tot)
                 (s\<lparr>processed_files := processed_files s + 1\<rparr>))))"
  using assms by (simp add: process_file_unfold Let_def)

lemma process_file_no_space:
  assumes "is_valid_image env (files (lw s)) f = Inr True"
      and "files (lw s) f = Some bs"
      and "fst (get_free_space env (dirname f) (lw s)) < 2 * length bs"
  shows "process_file env od tot start f s =
           Inr (failed ((say (Processing f (processed_files s + 1) tot)
                          (s\<lparr>processed_files := processed_files s + 1\<rparr>))
                  \<lparr>lw := print (ErrNoSpace f)
                     (snd (get_free_space env (dirname f)
                        (print (Processing f (processed_files s + 1) tot) (lw s))))\<rparr>))"
  using assms by (simp add: process_file_unfold Let_def getsize_def)

text \<open>
  Claim C5.  When the free space that \<open>get_free_space\<close> reports for the
  directory of an existing file is less than twice the size of the file, the
  turn of the loop for that file ends normally, counts the file as processed
  and as failed, leaves every stored file as it was and performs no file
  operation: no write and no call of \<open>os.remove\<close>.
\<close>

theorem insufficient_space_skips:
  assumes "files (lw s) file_path = Some bs"
      and "fst (get_free_space env (dirname file_path) (lw s)) < 2 * length bs"
  shows "\<exists>s'. process_file env out_dir total_files start_time file_path s = Inr s'
            \<and> processed_files s' = processed_files s + 1
            \<and> failed_files s' = failed_files s + 1
            \<and> files (lw s') = files (lw s)
            \<and> fs_ops (new_events (lw s) (lw s')) = []"
proof (cases "is_valid_image env (files (lw s)) file_path = Inr True")
  case True
  show ?thesis
    unfolding process_file_no_space[OF True assms]
    by (simp add: new_events_def split: sum.splits)
next
  case False
  show ?thesis
    unfolding process_file_skip_invalid[OF False]
    by (simp add: new_events_def)
qed

theorem insufficient_space_skips_witness:
  "files demo_world ''imgs/sub/a.png'' = Some png_bytes
   \<and> fst (get_free_space (demo_env\<lparr>disk_usage := (\<lambda>fs p. Inr (1000, 985, 15))\<rparr>)
            (dirname ''imgs/sub/a.png'') demo_world) < 2 * length png_bytes
   \<and> (\<exists>s'. process_file (demo_env\<lparr>disk_usage := (\<lambda>fs p. Inr (1000, 985, 15))\<rparr>) None 1 0
              ''imgs/sub/a.png'' \<lparr>lw = demo_world, processed_files = 0, failed_files = 0\<rparr> = Inr s'
            \<and> processed_files s' = 1
            \<and> failed_files s' = 1
            \<and> files (lw s') = files demo_world
            \<and> fs_ops (new_events demo_world (lw s')) = [])"
proof -
  let ?env = "demo_env\<lparr>disk_usage := (\<lambda>fs p. Inr (1000, 985, 15))\<rparr>"
  let ?s = "\<lparr>lw = demo_world, processed_files = 0, failed_files = 0\<rparr>"
  have a: "files (lw ?s) ''imgs/sub/a.png'' = Some png_bytes"
    by (simp add: demo_world_def)
  have b: "fst (get_free_space ?env (dirname ''imgs/sub/a.png'') (lw ?s)) < 2 * length png_bytes"
    by (simp add: get_free_space_def demo_env_def png_bytes_def)
  from insufficient_space_skips[OF a b, of None 1 0] a b show ?thesis by simp
qed


lemma process_file_read_failed:
  assumes "is_valid_image env (files (lw s)) f = Inr True"
      and "files (lw s) f = Some bs0"
      and "\<not> fst (get_free_space env (dirname f) (lw s)) < 2 * length bs0"
      and "open_read env (files (lw s)) f = Inl e"
  shows "process_file env od tot start f s =
           Inr (failed ((say (Processing f (processed_files s + 1) tot)
                          (s\<lparr>processed_files := processed_files s + 1\<rparr>))
                  \<lparr>lw := snd (convert_to_base64 env f
                     (snd (get_free_space env (dirname f)
                        (print (Processing f (processed_files s + 1) tot) (lw s)))))\<rparr>))"
  using assms by (simp add: process_file_unfold Let_def getsize_def)

lemma process_file_main:
  assumes "is_valid_image env (files (lw s)) f = Inr True"
      and "files (lw s) f = Some bs0"
      and "\<not> fst (get_free_space env (dirname f) (lw s)) < 2 * length bs0"
      and "open_read env (files (lw s)) f = Inr bs"
      and "output_path_of env od f = Inr out"
  shows "process_file env od tot start f s =
           report env tot start
             (save_and_remove env f (b64encode bs) out
                ((say (Processing f (processed_files s + 1) tot)
                          (s\<lparr>processed_files := processed_files s + 1\<rparr>))
                  \<lparr>lw := snd (convert_to_base64 env f
                     (snd (get_free_space env (dirname f)
                        (print (Processing f (processed_files s + 1) tot) (lw s)))))\<rparr>))"
  using assms by (simp add: process_file_unfold Let_def getsize_def)

text \<open>What one turn of the loop does, by the branch it takes: it is skipped
  (no file operation), or the write fails, or the write succeeds and
  \<open>os.remove\<close> is called.\<close>

lemma process_file_outcomes:
  assumes run: "process_file env od tot start f s = Inr s'"
  shows "processed_files s' = processed_files s + 1
     \<and> events (lw s') = events (lw s) @ new_events (lw s) (lw s')
     \<and> ((failed_files s' = failed_files s + 1 \<and> files (lw s') = files (lw s)
          \<and> (fs_ops (new_events (lw s) (lw s')) = []
              \<or> (\<exists>out t e. fs_ops (new_events (lw s) (lw s')) = [OsWrite out t (Some e)])))
        \<or> (\<exists>out bs r.
              is_valid_image env (files (lw s)) f = Inr True
            \<and> files (lw s) f = Some bs
            \<and> output_path_of env od f = Inr out
            \<and> fs_ops (new_events (lw s) (lw s'))
                = [OsWrite out (b64encode bs) None, OsRemove f r]
            \<and> (case r of
                  None \<Rightarrow> failed_files s' = failed_files s
                          \<and> files (lw s') = ((files (lw s))(out \<mapsto> encode_utf8 (b64encode bs)))(f := None)
                | Some e \<Rightarrow> failed_files s' = failed_files s + 1
                          \<and> files (lw s') = (files (lw s))(out \<mapsto> encode_utf8 (b64encode bs))
                          \<and> Print (PartialSuccess out) \<in> set (new_events (lw s) (lw s')))))"
proof (cases "is_valid_image env (files (lw s)) f = Inr True")
  case False
  show ?thesis
    using run unfolding process_file_skip_invalid[OF False]
    by (auto simp: new_events_def)
next
  case valid: True
  then obtain bs0 where bs0: "files (lw s) f = Some bs0"
    using is_valid_image_True(2) by blast
  show ?thesis
  proof (cases "fst (get_free_space env (dirname f) (lw s)) < 2 * length bs0")
    case True
    show ?thesis
      using run unfolding process_file_no_space[OF valid bs0 True]
      by (auto simp: new_events_def split: sum.splits)
  next
    case space: False
    show ?thesis
    proof (cases "open_read env (files (lw s)) f")
      case (Inl e)
      show ?thesis
        using run Inl unfolding process_file_read_failed[OF valid bs0 space Inl]
        by (auto simp: new_events_def split: sum.splits)
    next
      case (Inr bs)
      then have bs: "bs = bs0" using bs0 by (simp add: open_read_def split: option.splits)
      from valid have "f \<noteq> []" by (rule is_valid_image_True(3))
      then obtain out where out: "output_path_of env od f = Inr out"
        using output_path_of_total by blast
      define s2 where "s2 = (say (Processing f (processed_files s + 1) tot)
                          (s\<lparr>processed_files := processed_files s + 1\<rparr>))
                  \<lparr>lw := snd (convert_to_base64 env f
                     (snd (get_free_space env (dirname f)
                        (print (Processing f (processed_files s + 1) tot) (lw s)))))\<rparr>"
      define t where "t = b64encode bs0"
      define r where "r = remove_outcome env ((files (lw s))(out \<mapsto> encode_utf8 t)) f"
      define X where "X = save_and_remove env f t out s2"
      have run': "report env tot start X = Inr s'"
        using run unfolding process_file_main[OF valid bs0 space Inr out] X_def s2_def t_def bs .
      note rep = report_effect[OF run']
      obtain pre where pre: "events (lw s2) = events (lw s) @ pre" "fs_ops pre = []"
        using Inr by (simp add: s2_def split: sum.splits)
      have s2: "files (lw s2) = files (lw s)" "processed_files s2 = processed_files s + 1"
        "failed_files s2 = failed_files s"
        by (simp_all add: s2_def)
      obtain post where post: "events (lw s') = events (lw X) @ post" "fs_ops post = []"
        "\<And>m. Print (PartialSuccess m) \<notin> set post"
        using rep(5) by (cases "processed_files X > 1") simp_all
      note sar = save_and_remove_effect[of env f t out s2, folded X_def, unfolded s2 r_def[symmetric]]
      have p: "processed_files s' = processed_files s + 1"
        using rep(2) sar(1) by simp
      show ?thesis
      proof (cases "saved env out")
        case False
        have ev: "events (lw s') = events (lw s) @ pre @
                    (case os_makedirs env (dirname out) of
                       Some e \<Rightarrow> [Print (save_error_msg out e)]
                     | None \<Rightarrow> (case write_error env out of
                                  Some e \<Rightarrow> [OsWrite out t (Some e), Print (save_error_msg out e)]
                                | None \<Rightarrow> [])) @ post"
          using post(1) sar(5) pre(1) False by simp
        have "failed_files s' = failed_files s + 1" "files (lw s') = files (lw s)"
          using rep(3,4) sar(2,4) False by simp_all
        then show ?thesis
          using p pre(2) post(2) unfolding new_events_append[OF ev] ev
          by (auto split: option.splits)
      next
        case True
        have ev: "events (lw s') = events (lw s) @ pre @
                    [OsWrite out t None, OsRemove f r] @
                    (case r of None \<Rightarrow> [Print (Success f out)]
                     | Some e \<Rightarrow> [Print (remove_error_msg f e), Print (PartialSuccess out)]) @ post"
          using post(1) sar(5) pre(1) True by simp
        have ops: "fs_ops (new_events (lw s) (lw s')) = [OsWrite out (b64encode bs0) None, OsRemove f r]"
          unfolding new_events_append[OF ev] using pre(2) post(2)
          by (simp add: t_def split: option.splits)
        have fin: "case r of
                  None \<Rightarrow> failed_files s' = failed_files s
                          \<and> files (lw s') = ((files (lw s))(out \<mapsto> encode_utf8 (b64encode bs0)))(f := None)
                | Some e \<Rightarrow> failed_files s' = failed_files s + 1
                          \<and> files (lw s') = (files (lw s))(out \<mapsto> encode_utf8 (b64encode bs0))
                          \<and> Print (PartialSuccess out) \<in> set (new_events (lw s) (lw s'))"
          unfolding new_events_append[OF ev]
          using rep(3,4) sar(2,4) True by (cases r) (simp_all add: t_def)
        have "events (lw s') = events (lw s) @ new_events (lw s) (lw s')"
          unfolding new_events_append[OF ev] by (rule ev)
        then show ?thesis
          using p valid bs0 out ops fin by blast
      qed
    qed
  qed
qed

text \<open>
  Claim C6.  \<open>is_valid_image\<close> returns a boolean for every path, environment
  and file store, and when \<open>imghdr.what\<close> raises an exception the result is
  \<open>False\<close>.
\<close>

theorem is_valid_image_never_raises:
  "(\<exists>b. is_valid_image env fs file_path = Inr b)
   \<and> (\<forall>e. imghdr_what env fs file_path = Inl e \<longrightarrow> is_valid_image env fs file_path = Inr False)"
  by (auto simp: is_valid_image_def Let_def split: sum.splits)

theorem is_valid_image_never_raises_witness:
  "imghdr_what (demo_env\<lparr>sniff_error := (\<lambda>p. Some PermissionError)\<rparr>) (files demo_world)
       ''imgs/sub/a.png'' = Inl PermissionError
   \<and> is_valid_image (demo_env\<lparr>sniff_error := (\<lambda>p. Some PermissionError)\<rparr>) (files demo_world)
       ''imgs/sub/a.png'' = Inr False"
proof -
  have h: "imghdr_what (demo_env\<lparr>sniff_error := (\<lambda>p. Some PermissionError)\<rparr>) (files demo_world)
       ''imgs/sub/a.png'' = Inl PermissionError"
    by (simp add: imghdr_what_def demo_env_def demo_world_def)
  from is_valid_image_never_raises[of "demo_env\<lparr>sniff_error := (\<lambda>p. Some PermissionError)\<rparr>"
        "files demo_world" "''imgs/sub/a.png''"] h
  show ?thesis by blast
qed

lemma report_total:
  "tot \<noteq> 0 \<Longrightarrow> \<exists>s'. report env tot start s = Inr s'"
  by (simp add: report_def time_time_def Let_def)

lemma process_file_total:
  assumes "tot \<noteq> 0"
  shows "\<exists>s'. process_file env od tot start f s = Inr s'"
proof (cases "is_valid_image env (files (lw s)) f = Inr True")
  case False
  then show ?thesis by (simp add: process_file_skip_invalid)
next
  case valid: True
  then obtain bs0 where bs0: "files (lw s) f = Some bs0"
    using is_valid_image_True(2) by blast
  from valid have "f \<noteq> []" by (rule is_valid_image_True(3))
  then obtain out where out: "output_path_of env od f = Inr out"
    using output_path_of_total by blast
  show ?thesis
  proof (cases "fst (get_free_space env (dirname f) (lw s)) < 2 * length bs0")
    case True
    then show ?thesis by (simp add: process_file_no_space[OF valid bs0])
  next
    case space: False
    show ?thesis
    proof (cases "open_read env (files (lw s)) f")
      case (Inl e)
      then show ?thesis by (simp add: process_file_read_failed[OF valid bs0 space])
    next
      case (Inr bs)
      show ?thesis
        unfolding process_file_main[OF valid bs0 space Inr out]
        using assms by (rule report_total)
    qed
  qed
qed

lemma process_file_written:
  assumes valid: "is_valid_image env (files (lw s)) f = Inr True"
      and bs0: "files (lw s) f = Some bs"
      and space: "\<not> fst (get_free_space env (dirname f) (lw s)) < 2 * length bs"
      and rd: "read_error env f = None"
      and out: "output_path_of env od f = Inr out"
      and sv: "saved env out"
      and tot: "tot \<noteq> 0"
  shows "\<exists>s'. process_file env od tot start f s = Inr s'
          \<and> OsWrite out (b64encode bs) None \<in> set (new_events (lw s) (lw s'))
          \<and> OsRemove f (remove_outcome env ((files (lw s))(out \<mapsto> encode_utf8 (b64encode bs))) f)
                \<in> set (new_events (lw s) (lw s'))"
proof -
  have Inr: "open_read env (files (lw s)) f = Inr bs"
    using bs0 rd by (simp add: open_read_def)
  define s2 where "s2 = (say (Processing f (processed_files s + 1) tot)
                          (s\<lparr>processed_files := processed_files s + 1\<rparr>))
                  \<lparr>lw := snd (convert_to_base64 env f
                     (snd (get_free_space env (dirname f)
                        (print (Processing f (processed_files s + 1) tot) (lw s)))))\<rparr>"
  define X where "X = save_and_remove env f (b64encode bs) out s2"
  have pf: "process_file env od tot start f s = report env tot start X"
    unfolding process_file_main[OF valid bs0 space Inr out] X_def s2_def ..
  obtain s' where run: "report env tot start X = Inr s'"
    using report_total[OF tot] by blast
  obtain pre where pre: "events (lw s2) = events (lw s) @ pre"
    using Inr by (simp add: s2_def split: sum.splits)
  have s2: "files (lw s2) = files (lw s)"
    by (simp add: s2_def)
  obtain post where post: "events (lw s') = events (lw X) @ post"
    using report_effect(5)[OF run] by blast
  obtain mid where mid: "events (lw X) = events (lw s2) @
       [OsWrite out (b64encode bs) None,
        OsRemove f (remove_outcome env ((files (lw s))(out \<mapsto> encode_utf8 (b64encode bs))) f)] @ mid"
    using save_and_remove_effect(5)[of env f "b64encode bs" out s2, folded X_def] sv s2
    by simp
  have ev: "events (lw s') = events (lw s) @ pre @
       [OsWrite out (b64encode bs) None,
        OsRemove f (remove_outcome env ((files (lw s))(out \<mapsto> encode_utf8 (b64encode bs))) f)]
       @ mid @ post"
    using pre mid post by simp
  show ?thesis
    unfolding pf using run new_events_append[OF ev] by simp
qed

lemma demo_suffix: "lower (path_suffix ''imgs/sub/a.png'') = ''.png''"
  by (simp add: path_suffix_def path_name_def path_parts_def name_suffix_def rfind_def
        slice_from_def Let_def lower_def lower_char_def less_eq_char_def)

lemma demo_dirname:
  "dirname ''imgs/sub/a.png'' = ''imgs/sub''"
  "dirname ''imgs/sub/a.txt'' = ''imgs/sub''"
  by (simp_all add: dirname_def rfind_def slice_to_def rstrip_def Let_def)

lemma demo_splitext: "splitext ''imgs/sub/a.png'' = (''imgs/sub/a'', ''.png'')"
  by (simp add: splitext_def rfind_def slice_to_def slice_from_def Let_def)

text \<open>
  Claim C7.  When a turn of the loop has written the text file \<open>out\<close>
  successfully and its call of \<open>os.remove\<close> on the original has failed, the
  turn has printed the partial success line for \<open>out\<close>, it has counted the
  file as failed, and the text file is in the file store with the text that
  was written.
\<close>

theorem partial_success_counted_failed:
  assumes "process_file env out_dir total_files start_time file_path s = Inr s'"
      and "OsWrite out t None \<in> set (new_events (lw s) (lw s'))"
      and "OsRemove file_path (Some e) \<in> set (new_events (lw s) (lw s'))"
  shows "Print (PartialSuccess out) \<in> set (new_events (lw s) (lw s'))
       \<and> failed_files s' = failed_files s + 1
       \<and> files (lw s') out = Some (encode_utf8 t)"
proof -
  have mem: "\<And>x. x \<in> set (fs_ops (new_events (lw s) (lw s')))
                \<longleftrightarrow> x \<in> set (new_events (lw s) (lw s')) \<and> (\<forall>m. x \<noteq> Print m)"
    by (auto simp: fs_ops_def split: event.splits)
  have w: "OsWrite out t None \<in> set (fs_ops (new_events (lw s) (lw s')))"
    and r: "OsRemove file_path (Some e) \<in> set (fs_ops (new_events (lw s) (lw s')))"
    using assms(2,3) by (simp_all add: mem)
  let ?ops = "fs_ops (new_events (lw s) (lw s'))"
  from process_file_outcomes[OF assms(1)]
  consider (skipped) "?ops = [] \<or> (\<exists>out t e. ?ops = [OsWrite out t (Some e)])"
    | (removed) out' bs r' where
        "?ops = [OsWrite out' (b64encode bs) None, OsRemove file_path r']"
        "case r' of
           None \<Rightarrow> failed_files s' = failed_files s
                   \<and> files (lw s') = ((files (lw s))(out' \<mapsto> encode_utf8 (b64encode bs)))(file_path := None)
         | Some e \<Rightarrow> failed_files s' = failed_files s + 1
                   \<and> files (lw s') = (files (lw s))(out' \<mapsto> encode_utf8 (b64encode bs))
                   \<and> Print (PartialSuccess out') \<in> set (new_events (lw s) (lw s'))"
    by blast
  then show ?thesis
  proof cases
    case skipped
    with r show ?thesis by auto
  next
    case removed
    from w removed(1) have eq: "out' = out" "b64encode bs = t" by simp_all
    from r removed(1) have r': "r' = Some e" by simp
    from removed(2) show ?thesis unfolding r' eq by simp
  qed
qed

theorem partial_success_counted_failed_witness:
  "\<exists>s'. process_file (demo_env\<lparr>remove_error := (\<lambda>p. Some PermissionError)\<rparr>) None 1 0
            ''imgs/sub/a.png'' \<lparr>lw = demo_world, processed_files = 0, failed_files = 0\<rparr> = Inr s'
      \<and> OsWrite ''imgs/sub/a.txt'' (b64encode png_bytes) None \<in> set (new_events demo_world (lw s'))
      \<and> OsRemove ''imgs/sub/a.png'' (Some PermissionError) \<in> set (new_events demo_world (lw s'))
      \<and> Print (PartialSuccess ''imgs/sub/a.txt'') \<in> set (new_events demo_world (lw s'))
      \<and> failed_files s' = 1
      \<and> files (lw s') ''imgs/sub/a.txt'' = Some (encode_utf8 (b64encode png_bytes))"
proof -
  let ?env = "demo_env\<lparr>remove_error := (\<lambda>p. Some PermissionError)\<rparr>"
  let ?s = "\<lparr>lw = demo_world, processed_files = 0, failed_files = 0\<rparr>"
  let ?f = "''imgs/sub/a.png''"
  have valid: "is_valid_image ?env (files (lw ?s)) ?f = Inr True"
    by (simp add: is_valid_image_def imghdr_what_def demo_suffix SUPPORTED_FORMATS_def
          demo_env_def demo_world_def png_bytes_def)
  have bs: "files (lw ?s) ?f = Some png_bytes"
    by (simp add: demo_world_def)
  have space: "\<not> fst (get_free_space ?env (dirname ?f) (lw ?s)) < 2 * length png_bytes"
    by (simp add: get_free_space_def demo_env_def png_bytes_def demo_dirname)
  have rd: "read_error ?env ?f = None"
    by (simp add: demo_env_def)
  have out: "output_path_of ?env None ?f = Inr ''imgs/sub/a.txt''"
    by (simp add: output_path_of_def truthy_def demo_splitext)
  have sv: "saved ?env ''imgs/sub/a.txt''"
    by (simp add: saved_def os_makedirs_def demo_dirname demo_env_def)
  have rm: "remove_outcome ?env ((files (lw ?s))(''imgs/sub/a.txt'' \<mapsto> encode_utf8 (b64encode png_bytes))) ?f
              = Some PermissionError"
    by (simp add: remove_outcome_def demo_env_def demo_world_def)
  from process_file_written[OF valid bs space rd out sv, of 1 0, unfolded rm]
  obtain s' where run: "process_file ?env None 1 0 ?f ?s = Inr s'"
    and w: "OsWrite ''imgs/sub/a.txt'' (b64encode png_bytes) None \<in> set (new_events (lw ?s) (lw s'))"
    and r: "OsRemove ?f (Some PermissionError) \<in> set (new_events (lw ?s) (lw s'))"
    by auto
  from partial_success_counted_failed[OF run w r] run w r
  show ?thesis by simp
qed

end
